theory Spec2Isabelle
  imports Main "HOL-Library.AList"
begin

section \<open>The report page: data model\<close>

text \<open>
  The program is one module, \<^verbatim>\<open>src/web/src/app/page.tsx\<close>. It declares the type
  \<^verbatim>\<open>Task\<close>, the constant array \<^verbatim>\<open>baseTasks\<close> of descriptors (a \<^verbatim>\<open>Task\<close> without its
  \<^verbatim>\<open>code\<close>), the array \<^verbatim>\<open>tasks\<close> built from it by reading one file per descriptor,
  and the component \<^verbatim>\<open>Home\<close> that returns the page's element tree.

  A JavaScript string is modelled as a \<^typ>\<open>string\<close> holding the UTF-8 encoding of its
  text (the encoding of the source file itself). The program only stores, copies and
  compares strings, so nothing depends on how a string counts its characters.
\<close>

text \<open>
  \<^verbatim>\<open>Omit<Task, "code">\<close>: the five authored fields. The field \<^verbatim>\<open>id\<close> is written
  \<open>id'\<close>, since \<open>id\<close> is HOL's identity function.
\<close>

record base_task =
  id' :: string
  title :: string
  aim :: string
  highlights :: "string list"
  program :: string

text \<open>\<^verbatim>\<open>Task\<close>: the descriptor's fields and \<^verbatim>\<open>code\<close>.\<close>

record Task = base_task +
  code :: string

text \<open>The character U+00B7 (middle dot) of the two titles, in UTF-8.\<close>

definition middot :: string where
  "middot = [CHR 0xC2, CHR 0xB7]"

definition baseTasks :: "base_task list" where
  "baseTasks =
    [ \<lparr> id' = ''task-1'',
        title = ''Task 1 '' @ middot @ '' Largest Number Using Nested If'',
        aim = ''Determine the largest of three numbers with nested if statements.'',
        highlights =
          [ ''Demonstrates conditional control flow without helper utilities.'',
            ''Prints the evaluated numbers and the detected maximum.'',
            ''Relies strictly on nested branching for the decision path.'' ],
        program = ''task1_largest.php'' \<rparr>,
      \<lparr> id' = ''task-2'',
        title = ''Task 2 '' @ middot @ '' Reverse String with strrev()'',
        aim = ''Reverse a string using PHP's strrev() function.'',
        highlights =
          [ ''Uses PHP's built-in string helper directly.'',
            ''Displays both original and reversed strings for validation.'',
            ''Keeps the input deterministic for the documented screenshot.'' ],
        program = ''task2_reverse.php'' \<rparr> ]"

section \<open>The host: process, path and file system\<close>

text \<open>
  The module calls three functions of the Node.js runtime, none of them code of this
  repository: \<^verbatim>\<open>process.cwd()\<close>, \<^verbatim>\<open>path.join(...)\<close> and
  \<^verbatim>\<open>fs.readFileSync(path, encoding)\<close>. They are parameters of the model, the fields
  of a \<open>world\<close>:
  \<^item> \<open>cwd\<close>: what \<^verbatim>\<open>process.cwd()\<close> returns;
  \<^item> \<open>join\<close>: \<^verbatim>\<open>path.join\<close>, a function of its segments;
  \<^item> \<open>readFileSync\<close>: for a path and an encoding, the text \<^verbatim>\<open>fs.readFileSync\<close>
    returns now (\<open>Inr\<close>), or the exception it throws (\<open>Inl\<close>); the type \<open>'e\<close> of
    exceptions is left open;
  \<^item> \<open>calls\<close>: the calls of host functions made so far, oldest first. The program cannot
    read this field; it records what the program did to the host.

  \<^verbatim>\<open>process.cwd()\<close> and \<^verbatim>\<open>path.join\<close> are taken to return: in Node the first throws
  only when the working directory no longer exists, the second only on a segment that is
  not a string, which the types exclude. A call is a step of its own that returns a
  value and the world with the call added to the log.
\<close>

datatype call =
    ProcessCwd
  | PathJoin "string list"
  | FsReadFileSync string string

record 'e world =
  cwd :: string
  join :: "string list \<Rightarrow> string"
  readFileSync :: "string \<Rightarrow> string \<Rightarrow> 'e + string"
  calls :: "call list"

definition process_cwd :: "'e world \<Rightarrow> string \<times> 'e world" where
  "process_cwd w = (cwd w, w\<lparr>calls := calls w @ [ProcessCwd]\<rparr>)"

definition path_join :: "string list \<Rightarrow> 'e world \<Rightarrow> string \<times> 'e world" where
  "path_join segments w = (join w segments, w\<lparr>calls := calls w @ [PathJoin segments]\<rparr>)"

definition fs_readFileSync :: "string \<Rightarrow> string \<Rightarrow> 'e world \<Rightarrow> ('e + string) \<times> 'e world" where
  "fs_readFileSync p encoding w =
     (readFileSync w p encoding, w\<lparr>calls := calls w @ [FsReadFileSync p encoding]\<rparr>)"

section \<open>Building the task records\<close>

text \<open>
  The callback of \<^verbatim>\<open>baseTasks.map\<close> (lines 40 to 42 of the source; it has no name
  there):
  \<^verbatim>\<open>
  (task) => {
    const filePath = path.join(process.cwd(), "php", task.program);
    const code = fs.readFileSync(filePath, "utf8");
    return { ...task, code };
  }
  \<close>
  The object spread \<^verbatim>\<open>{ ...task, code }\<close> is a new object with the fields of \<open>task\<close>
  and the field \<open>code\<close>: the record extension of \<open>task\<close> by \<open>code\<close> (the local
  constant \<^verbatim>\<open>code\<close> is \<open>c\<close> below, \<open>code\<close> being the field). An exception of the
  read is not caught, so it is the callback's result.
\<close>

definition tasks_callback :: "base_task \<Rightarrow> 'e world \<Rightarrow> ('e + Task) \<times> 'e world" where
  "tasks_callback task w =
     (let (dir, w1) = process_cwd w;
          (filePath, w2) = path_join [dir, ''php'', program task] w1;
          (r, w3) = fs_readFileSync filePath ''utf8'' w2
      in case r of
           Inl e \<Rightarrow> (Inl e, w3)
         | Inr c \<Rightarrow> (Inr (base_task.extend task (Task.fields c)), w3))"

text \<open>
  \<^verbatim>\<open>Array.prototype.map\<close> with a callback that may throw: the elements are visited in
  index order, each result is stored at its element's index, and the first exception
  ends the loop and is the result of the whole call.
\<close>

fun array_map :: "('a \<Rightarrow> 's \<Rightarrow> ('e + 'b) \<times> 's) \<Rightarrow> 'a list \<Rightarrow> 's \<Rightarrow> ('e + 'b list) \<times> 's" where
  "array_map f [] s = (Inr [], s)"
| "array_map f (x # xs) s =
     (case f x s of
        (Inl e, s1) \<Rightarrow> (Inl e, s1)
      | (Inr y, s1) \<Rightarrow>
          (case array_map f xs s1 of
             (Inl e, s2) \<Rightarrow> (Inl e, s2)
           | (Inr ys, s2) \<Rightarrow> (Inr (y # ys), s2)))"

text \<open>\<^verbatim>\<open>const tasks: Task[] = baseTasks.map(...)\<close>, evaluated when the module is loaded.\<close>

definition tasks :: "'e world \<Rightarrow> ('e + Task list) \<times> 'e world" where
  "tasks w = array_map tasks_callback baseTasks w"

section \<open>The page\<close>

text \<open>
  \<^verbatim>\<open>Home\<close> returns a tree of React elements. An element has a type (the tag), an
  optional \<^verbatim>\<open>key\<close>, its other props in the order the source writes them, and its
  children; a string among the children is a \<open>Text\<close>. JSX text is taken as the JSX
  transform reads it: lines are trimmed and joined by one space, and text that is only
  white space with a line break is dropped, so \<^verbatim>\<open><pre>\<close> has the single child
  \<^verbatim>\<open><code>\<close>, and \<^verbatim>\<open><strong>Aim:</strong> {task.aim}\<close> has the three children
  \<^verbatim>\<open><strong>\<close>, one space and the aim.
\<close>

datatype node =
    Element string "string option" "(string \<times> string) list" "node list"
  | Text string

text \<open>
  \<^verbatim>\<open>styles\<close> is the object imported from \<^verbatim>\<open>page.module.css\<close>, a file that is not part
  of the sources: a table from the names the module uses (\<^verbatim>\<open>styles.page\<close> is
  \<open>styles ''page''\<close>) to class names. It is a parameter of the model.
\<close>

type_synonym css_module = "string \<Rightarrow> string"

text \<open>
  The callback of \<^verbatim>\<open>task.highlights.map\<close> (line 82):
  \<^verbatim>\<open>(highlight) => <li key={highlight}>{highlight}</li>\<close>.
\<close>

definition highlight_item :: "string \<Rightarrow> node" where
  "highlight_item highlight = Element ''li'' (Some highlight) [] [Text highlight]"

text \<open>The callback of \<^verbatim>\<open>tasks.map\<close> (lines 75 to 92): the card of one task.\<close>

definition task_card :: "css_module \<Rightarrow> Task \<Rightarrow> node" where
  "task_card styles task =
     Element ''li'' (Some (id' task)) [(''className'', styles ''taskCard'')]
       [ Element ''h3'' None [] [Text (title task)],
         Element ''p'' None [(''className'', styles ''aim'')]
           [ Element ''strong'' None [] [Text ''Aim:''],
             Text '' '',
             Text (aim task) ],
         Element ''ul'' None [(''className'', styles ''highlightList'')]
           (map highlight_item (highlights task)),
         Element ''details'' None [(''className'', styles ''codeBlock'')]
           [ Element ''summary'' None [] [Text ''Show Program''],
             Element ''pre'' None []
               [ Element ''code'' None [] [Text (code task)] ] ] ]"

text \<open>
  \<^verbatim>\<open>export default function Home()\<close>. The function has no parameter; it reads the
  module's constants \<^verbatim>\<open>styles\<close> and \<^verbatim>\<open>tasks\<close>, which are the arguments here.
\<close>

definition Home :: "css_module \<Rightarrow> Task list \<Rightarrow> node" where
  "Home styles ts =
     Element ''div'' None [(''className'', styles ''page'')]
       [ Element ''main'' None [(''className'', styles ''container'')]
           [ Element ''section'' None [(''className'', styles ''header'')]
               [ Element ''h1'' None [] [Text ''PHP Programming Task Report''],
                 Element ''p'' None []
                   [ Text (''Two PHP exercises were implemented, validated in the sandbox, and'' @
                       '' compiled into a structured PDF. Download the report to review the'' @
                       '' aims, constraints, procedures, program listings, captured outputs,'' @
                       '' and conclusions for each task.'') ],
                 Element ''div'' None [(''className'', styles ''actions'')]
                   [ Element ''a'' None
                       [(''className'', styles ''primary''), (''href'', ''/task-report.pdf'')]
                       [Text ''Download Report''],
                     Element ''a'' None
                       [(''className'', styles ''secondary''), (''href'', ''/task-report.pdf''),
                        (''target'', ''_blank''), (''rel'', ''noreferrer'')]
                       [Text ''Open Report in Browser''] ] ],
             Element ''section'' None [(''className'', styles ''tasksSection'')]
               [ Element ''h2'' None [] [Text ''Included Tasks''],
                 Element ''ul'' None [(''className'', styles ''taskList'')]
                   (map (task_card styles) ts) ] ] ]"

section \<open>Loading the module and serving the page\<close>

text \<open>
  A render of the page: the host loads the module, which evaluates \<^verbatim>\<open>tasks\<close>, and
  calls \<^verbatim>\<open>Home()\<close>. An exception of the module's evaluation ends the render: \<open>Home\<close>
  is not called.
\<close>

definition render_page :: "css_module \<Rightarrow> 'e world \<Rightarrow> ('e + node) \<times> 'e world" where
  "render_page styles w =
     (case tasks w of
        (Inl e, w1) \<Rightarrow> (Inl e, w1)
      | (Inr ts, w1) \<Rightarrow> (Inr (Home styles ts), w1))"

text \<open>
  One call of \<^verbatim>\<open>Home()\<close> in a world, the module being loaded with \<open>ts\<close> as its
  \<^verbatim>\<open>tasks\<close>: the body of \<open>Home\<close> calls no function of the host, so the world is
  returned as it was.
\<close>

definition invoke_Home :: "css_module \<Rightarrow> Task list \<Rightarrow> 'e world \<Rightarrow> node \<times> 'e world" where
  "invoke_Home styles ts w = (Home styles ts, w)"

text \<open>
  What happens after the module is loaded: the host calls \<^verbatim>\<open>Home()\<close> for a request,
  or the environment changes the files, so that from then on a read gives what the new
  table \<open>f\<close> says. \<open>serve\<close> runs a sequence of such events and collects the trees
  \<open>Home\<close> returned.
\<close>

datatype 'e event =
    Invoke
  | Files_changed "string \<Rightarrow> string \<Rightarrow> 'e + string"

fun serve :: "css_module \<Rightarrow> Task list \<Rightarrow> 'e event list \<Rightarrow> 'e world \<Rightarrow> node list \<times> 'e world" where
  "serve styles ts [] w = ([], w)"
| "serve styles ts (Invoke # evs) w =
     (let (d, w1) = invoke_Home styles ts w;
          (ds, w2) = serve styles ts evs w1
      in (d # ds, w2))"
| "serve styles ts (Files_changed f # evs) w =
     serve styles ts evs (w\<lparr>readFileSync := f\<rparr>)"

section \<open>The body of \<open>Home\<close> as syntax\<close>

text \<open>
  A HOL function returns the same value for the same arguments, whatever its body is.
  That \<^verbatim>\<open>Home\<close> is deterministic is a statement about the text of its body: none of
  its expressions reads a source of variation. To state it, the JSX of lines 47 to 96
  is given a second time, as syntax, and evaluated in a runtime.

  An \<open>expr\<close> is an expression in braces or the value of an attribute. The body of
  \<^verbatim>\<open>Home\<close> has string literals, \<^verbatim>\<open>styles.k\<close>, the fields \<^verbatim>\<open>task.id\<close>,
  \<^verbatim>\<open>task.title\<close>, \<^verbatim>\<open>task.aim\<close> and \<^verbatim>\<open>task.code\<close> of the variable of the callback of
  \<^verbatim>\<open>tasks.map\<close>, and the variable \<^verbatim>\<open>highlight\<close> of the callback of
  \<^verbatim>\<open>task.highlights.map\<close>. The last three constructors are what the body does not
  have: \<^verbatim>\<open>Math.random()\<close>, \<^verbatim>\<open>Date.now()\<close> and the data of the request that is being
  served (a header or cookie of the viewer), each as the text it would put into the
  page.
\<close>

datatype expr =
    Lit string
  | Styles string
  | Task_id
  | Task_title
  | Task_aim
  | Task_code
  | Highlight
  | Math_random
  | Date_now
  | Request string

text \<open>
  JSX: an element with its tag, its \<^verbatim>\<open>key\<close> if it has one, its attributes and its
  children; JSX text; an expression in braces; \<^verbatim>\<open>{tasks.map((task) => ...)}\<close> and
  \<^verbatim>\<open>{task.highlights.map((highlight) => ...)}\<close> with the JSX their callbacks return.
\<close>

datatype jsx =
    JElement string "expr option" "(string \<times> expr) list" "jsx list"
  | JText string
  | JHole expr
  | Tasks_map jsx
  | Highlights_map jsx

text \<open>What the sources of variation give during one call of \<^verbatim>\<open>Home\<close>.\<close>

record runtime =
  math_random :: string
  date_now :: string
  request :: "string \<Rightarrow> string"

text \<open>
  Evaluation, in a runtime \<open>rt\<close>, with the module's \<open>styles\<close> and \<open>tasks\<close> (\<open>ts\<close>)
  and the variables \<open>task\<close> (\<open>tv\<close>) and \<open>highlight\<close> (\<open>hv\<close>), which are bound inside
  the callbacks only. The result is \<open>None\<close> when a variable is used where it is not
  bound. An element gives one node, a \<^verbatim>\<open>map\<close> the nodes of all its elements in order.
\<close>

fun eval_expr ::
  "runtime \<Rightarrow> css_module \<Rightarrow> Task option \<Rightarrow> string option \<Rightarrow> expr \<Rightarrow> string option" where
  "eval_expr rt styles tv hv (Lit s) = Some s"
| "eval_expr rt styles tv hv (Styles k) = Some (styles k)"
| "eval_expr rt styles tv hv Task_id = map_option id' tv"
| "eval_expr rt styles tv hv Task_title = map_option title tv"
| "eval_expr rt styles tv hv Task_aim = map_option aim tv"
| "eval_expr rt styles tv hv Task_code = map_option code tv"
| "eval_expr rt styles tv hv Highlight = hv"
| "eval_expr rt styles tv hv Math_random = Some (math_random rt)"
| "eval_expr rt styles tv hv Date_now = Some (date_now rt)"
| "eval_expr rt styles tv hv (Request k) = Some (request rt k)"

fun eval_key ::
  "runtime \<Rightarrow> css_module \<Rightarrow> Task option \<Rightarrow> string option \<Rightarrow> expr option \<Rightarrow>
   string option option" where
  "eval_key rt styles tv hv None = Some None"
| "eval_key rt styles tv hv (Some e) = map_option Some (eval_expr rt styles tv hv e)"

definition eval_props ::
  "runtime \<Rightarrow> css_module \<Rightarrow> Task option \<Rightarrow> string option \<Rightarrow> (string \<times> expr) list \<Rightarrow>
   (string \<times> string) list option" where
  "eval_props rt styles tv hv ps =
     those (map (\<lambda>(a, e). map_option (Pair a) (eval_expr rt styles tv hv e)) ps)"

fun eval_jsx ::
  "runtime \<Rightarrow> css_module \<Rightarrow> Task list \<Rightarrow> Task option \<Rightarrow> string option \<Rightarrow> jsx \<Rightarrow>
   node list option" where
  "eval_jsx rt styles ts tv hv (JElement tag k ps cs) =
     (case (eval_key rt styles tv hv k, eval_props rt styles tv hv ps,
            those (map (eval_jsx rt styles ts tv hv) cs)) of
        (Some k', Some ps', Some cs') \<Rightarrow> Some [Element tag k' ps' (concat cs')]
      | _ \<Rightarrow> None)"
| "eval_jsx rt styles ts tv hv (JText s) = Some [Text s]"
| "eval_jsx rt styles ts tv hv (JHole e) =
     map_option (\<lambda>s. [Text s]) (eval_expr rt styles tv hv e)"
| "eval_jsx rt styles ts tv hv (Tasks_map j) =
     map_option concat (those (map (\<lambda>t. eval_jsx rt styles ts (Some t) hv j) ts))"
| "eval_jsx rt styles ts tv hv (Highlights_map j) =
     (case tv of
        None \<Rightarrow> None
      | Some t \<Rightarrow>
          map_option concat
            (those (map (\<lambda>h. eval_jsx rt styles ts tv (Some h) j) (highlights t))))"

text \<open>Whether an expression, or some expression of a piece of JSX, reads the runtime.\<close>

fun reads_runtime_expr :: "expr \<Rightarrow> bool" where
  "reads_runtime_expr Math_random = True"
| "reads_runtime_expr Date_now = True"
| "reads_runtime_expr (Request k) = True"
| "reads_runtime_expr e = False"

fun reads_runtime :: "jsx \<Rightarrow> bool" where
  "reads_runtime (JElement tag k ps cs) =
     ((case k of None \<Rightarrow> False | Some e \<Rightarrow> reads_runtime_expr e) \<or>
      list_ex (\<lambda>(a, e). reads_runtime_expr e) ps \<or> list_ex reads_runtime cs)"
| "reads_runtime (JText s) = False"
| "reads_runtime (JHole e) = reads_runtime_expr e"
| "reads_runtime (Tasks_map j) = reads_runtime j"
| "reads_runtime (Highlights_map j) = reads_runtime j"

text \<open>
  The JSX of the source: what the callback of \<^verbatim>\<open>task.highlights.map\<close> returns (line
  82), what the callback of \<^verbatim>\<open>tasks.map\<close> returns (lines 75 to 91), and what \<^verbatim>\<open>Home\<close>
  returns (lines 47 to 96).
\<close>

definition highlight_src :: jsx where
  "highlight_src = JElement ''li'' (Some Highlight) [] [JHole Highlight]"

definition card_src :: jsx where
  "card_src =
     JElement ''li'' (Some Task_id) [(''className'', Styles ''taskCard'')]
       [ JElement ''h3'' None [] [JHole Task_title],
         JElement ''p'' None [(''className'', Styles ''aim'')]
           [ JElement ''strong'' None [] [JText ''Aim:''],
             JText '' '',
             JHole Task_aim ],
         JElement ''ul'' None [(''className'', Styles ''highlightList'')]
           [ Highlights_map highlight_src ],
         JElement ''details'' None [(''className'', Styles ''codeBlock'')]
           [ JElement ''summary'' None [] [JText ''Show Program''],
             JElement ''pre'' None []
               [ JElement ''code'' None [] [JHole Task_code] ] ] ]"

definition Home_src :: jsx where
  "Home_src =
     JElement ''div'' None [(''className'', Styles ''page'')]
       [ JElement ''main'' None [(''className'', Styles ''container'')]
           [ JElement ''section'' None [(''className'', Styles ''header'')]
               [ JElement ''h1'' None [] [JText ''PHP Programming Task Report''],
                 JElement ''p'' None []
                   [ JText (''Two PHP exercises were implemented, validated in the sandbox, and'' @
                       '' compiled into a structured PDF. Download the report to review the'' @
                       '' aims, constraints, procedures, program listings, captured outputs,'' @
                       '' and conclusions for each task.'') ],
                 JElement ''div'' None [(''className'', Styles ''actions'')]
                   [ JElement ''a'' None
                       [(''className'', Styles ''primary''), (''href'', Lit ''/task-report.pdf'')]
                       [JText ''Download Report''],
                     JElement ''a'' None
                       [(''className'', Styles ''secondary''), (''href'', Lit ''/task-report.pdf''),
                        (''target'', Lit ''_blank''), (''rel'', Lit ''noreferrer'')]
                       [JText ''Open Report in Browser''] ] ],
             JElement ''section'' None [(''className'', Styles ''tasksSection'')]
               [ JElement ''h2'' None [] [JText ''Included Tasks''],
                 JElement ''ul'' None [(''className'', Styles ''taskList'')]
                   [ Tasks_map card_src ] ] ] ]"

section \<open>The same module on objects in a store\<close>

text \<open>
  Records are values: a function on them cannot change its argument. Whether the module
  changes the descriptors it was given is a question about JavaScript objects, so the
  construction of \<^verbatim>\<open>tasks\<close> is modelled a second time, on a store of objects. A value
  is a string or a reference; a cell of the store is an object (its own properties, in
  the order of their creation) or an array; a new cell is added at the end of the
  store, and the address of a cell is its index. A program cannot observe an address,
  only whether two references are the same, so the order in which the cells of one
  expression are created is of no consequence: the model creates an array or object when
  its elements or properties have been evaluated.
\<close>

datatype js_value = Str string | Ref nat

datatype cell = Obj "(string \<times> js_value) list" | Arr "js_value list"

type_synonym store = "cell list"

definition new :: "cell \<Rightarrow> store \<Rightarrow> nat \<times> store" where
  "new c st = (length st, st @ [c])"

definition cell_at :: "store \<Rightarrow> nat \<Rightarrow> cell option" where
  "cell_at st a = (if a < length st then Some (st ! a) else None)"

text \<open>
  What a step on the store can throw: an exception of the host, or \<open>Ill_typed\<close> when a
  value is not of the shape its TypeScript type promises (a \<open>task\<close> that is no object,
  a \<open>program\<close> that is no string). The type checker excludes the second; the model
  stops there and does not follow what the runtime would do.
\<close>

datatype 'e thrown = Host 'e | Ill_typed

text \<open>
  The evaluation of the array literal \<^verbatim>\<open>baseTasks\<close>: for each descriptor the array of
  its highlights and the object itself, then the array of the objects.
\<close>

definition descriptor_literal :: "base_task \<Rightarrow> store \<Rightarrow> js_value \<times> store" where
  "descriptor_literal t st =
     (let (h, st1) = new (Arr (map Str (highlights t))) st;
          (a, st2) = new (Obj [(''id'', Str (id' t)), (''title'', Str (title t)),
                               (''aim'', Str (aim t)), (''highlights'', Ref h),
                               (''program'', Str (program t))]) st1
      in (Ref a, st2))"

fun literals :: "base_task list \<Rightarrow> store \<Rightarrow> js_value list \<times> store" where
  "literals [] st = ([], st)"
| "literals (t # ts) st =
     (let (v, st1) = descriptor_literal t st;
          (vs, st2) = literals ts st1
      in (v # vs, st2))"

definition baseTasks_literal :: "store \<Rightarrow> nat \<times> store" where
  "baseTasks_literal st = (let (vs, st1) = literals baseTasks st in new (Arr vs) st1)"

text \<open>
  The callback on objects. \<^verbatim>\<open>process.cwd()\<close> is called before \<^verbatim>\<open>task.program\<close> is
  read, as the arguments of \<^verbatim>\<open>path.join\<close> are evaluated from left to right. The spread
  \<^verbatim>\<open>{ ...task, code }\<close> creates a new object: the own properties of \<open>task\<close> are copied
  in their order and \<open>code\<close> is defined on the copy (replacing a property of that name,
  or else added at the end), which is what \<open>AList.update\<close> does on the list of
  properties. The copy is shallow: the new object refers to the same array of highlights.
\<close>

definition callback_obj ::
  "js_value \<Rightarrow> 'e world \<times> store \<Rightarrow> ('e thrown + js_value) \<times> ('e world \<times> store)" where
  "callback_obj task s =
     (let (w, st) = s;
          (dir, w1) = process_cwd w
      in case task of
           Ref a \<Rightarrow>
             (case cell_at st a of
                Some (Obj props) \<Rightarrow>
                  (case map_of props ''program'' of
                     Some (Str p) \<Rightarrow>
                       (let (filePath, w2) = path_join [dir, ''php'', p] w1;
                            (r, w3) = fs_readFileSync filePath ''utf8'' w2
                        in case r of
                             Inl e \<Rightarrow> (Inl (Host e), (w3, st))
                           | Inr c \<Rightarrow>
                               (let (b, st1) = new (Obj (AList.update ''code'' (Str c) props)) st
                                in (Inr (Ref b), (w3, st1))))
                   | _ \<Rightarrow> (Inl Ill_typed, (w1, st)))
              | _ \<Rightarrow> (Inl Ill_typed, (w1, st)))
         | Str x \<Rightarrow> (Inl Ill_typed, (w1, st)))"

text \<open>
  \<^verbatim>\<open>baseTasks.map(...)\<close> on the store: \<open>b\<close> is the address of the array
  \<^verbatim>\<open>baseTasks\<close>; the results of the callback are put into a new array, whose address
  is the value of \<^verbatim>\<open>tasks\<close>.
\<close>

definition tasks_obj ::
  "nat \<Rightarrow> 'e world \<times> store \<Rightarrow> ('e thrown + nat) \<times> ('e world \<times> store)" where
  "tasks_obj b s =
     (case cell_at (snd s) b of
        Some (Arr elems) \<Rightarrow>
          (case array_map callback_obj elems s of
             (Inl e, s1) \<Rightarrow> (Inl e, s1)
           | (Inr vs, (w1, st1)) \<Rightarrow> (let (a, st2) = new (Arr vs) st1 in (Inr a, (w1, st2))))
      | _ \<Rightarrow> (Inl Ill_typed, s))"

section \<open>Notions used in the statements\<close>

subsection \<open>The host\<close>

text \<open>
  The path the callback reads for a descriptor, what the read of that path gives, the
  calls of host functions one run of the callback makes, and a world with more calls in
  its log.
\<close>

definition filePath_of :: "'e world \<Rightarrow> base_task \<Rightarrow> string" where
  "filePath_of w task = join w [cwd w, ''php'', program task]"

definition read_of :: "'e world \<Rightarrow> base_task \<Rightarrow> 'e + string" where
  "read_of w task = readFileSync w (filePath_of w task) ''utf8''"

definition callback_calls :: "'e world \<Rightarrow> base_task \<Rightarrow> call list" where
  "callback_calls w task =
     [ProcessCwd, PathJoin [cwd w, ''php'', program task],
      FsReadFileSync (filePath_of w task) ''utf8'']"

definition logged :: "call list \<Rightarrow> 'e world \<Rightarrow> 'e world" where
  "logged cs w = w\<lparr>calls := calls w @ cs\<rparr>"

fun is_read :: "call \<Rightarrow> bool" where
  "is_read (FsReadFileSync p encoding) = True"
| "is_read ProcessCwd = False"
| "is_read (PathJoin segments) = False"

text \<open>The events that are calls of \<open>Home\<close>.\<close>

fun is_invoke :: "'e event \<Rightarrow> bool" where
  "is_invoke Invoke = True"
| "is_invoke (Files_changed f) = False"

subsection \<open>Observations of an element tree\<close>

text \<open>
  The tag, key, attribute and children of a node; all nodes of a tree in document
  order; the text of a tree (the DOM's \<^verbatim>\<open>textContent\<close>); the elements of a tag in a
  tree; and the elements reached from a node by a path of tags, each a child of the one
  before (the selector \<^verbatim>\<open>main > section > ul > li\<close> from the root is the path
  \<open>[''main'', ''section'', ''ul'', ''li'']\<close>).
\<close>

fun tag_of :: "node \<Rightarrow> string option" where
  "tag_of (Element t k ps cs) = Some t"
| "tag_of (Text s) = None"

fun key_of :: "node \<Rightarrow> string option" where
  "key_of (Element t k ps cs) = k"
| "key_of (Text s) = None"

fun attr :: "string \<Rightarrow> node \<Rightarrow> string option" where
  "attr a (Element t k ps cs) = map_of ps a"
| "attr a (Text s) = None"

fun children :: "node \<Rightarrow> node list" where
  "children (Element t k ps cs) = cs"
| "children (Text s) = []"

fun descendants :: "node \<Rightarrow> node list" where
  "descendants (Element t k ps cs) = Element t k ps cs # concat (map descendants cs)"
| "descendants (Text s) = [Text s]"

fun text_content :: "node \<Rightarrow> string" where
  "text_content (Element t k ps cs) = concat (map text_content cs)"
| "text_content (Text s) = s"

definition by_tag :: "string \<Rightarrow> node \<Rightarrow> node list" where
  "by_tag t n = filter (\<lambda>m. tag_of m = Some t) (descendants n)"

definition child_elements :: "string \<Rightarrow> node list \<Rightarrow> node list" where
  "child_elements t ns = filter (\<lambda>m. tag_of m = Some t) (concat (map children ns))"

definition select :: "string list \<Rightarrow> node \<Rightarrow> node list" where
  "select path n = foldl (\<lambda>ns t. child_elements t ns) [n] path"

text \<open>The task cards of a page, and its sections (the header first).\<close>

definition task_cards :: "node \<Rightarrow> node list" where
  "task_cards doc = select [''main'', ''section'', ''ul'', ''li''] doc"

definition sections :: "node \<Rightarrow> node list" where
  "sections doc = select [''main'', ''section''] doc"

text \<open>The items of a list element: tag, key and text of each child.\<close>

definition items_of :: "node \<Rightarrow> (string option \<times> string option \<times> string) list" where
  "items_of u = map (\<lambda>m. (tag_of m, key_of m, text_content m)) (children u)"

subsection \<open>Reading records back from the store\<close>

text \<open>
  The descriptor or task an object of the store stands for, if it has the properties
  of one, and the list an array stands for.
\<close>

fun the_str :: "js_value \<Rightarrow> string option" where
  "the_str (Str s) = Some s"
| "the_str (Ref a) = None"

definition str_prop :: "(string \<times> js_value) list \<Rightarrow> string \<Rightarrow> string option" where
  "str_prop props k = (case map_of props k of Some (Str s) \<Rightarrow> Some s | _ \<Rightarrow> None)"

definition strs_prop :: "store \<Rightarrow> (string \<times> js_value) list \<Rightarrow> string \<Rightarrow> string list option" where
  "strs_prop st props k =
     (case map_of props k of
        Some (Ref a) \<Rightarrow>
          (case cell_at st a of Some (Arr vs) \<Rightarrow> those (map the_str vs) | _ \<Rightarrow> None)
      | _ \<Rightarrow> None)"

definition descriptor_of_props :: "store \<Rightarrow> (string \<times> js_value) list \<Rightarrow> base_task option" where
  "descriptor_of_props st props =
     (case (str_prop props ''id'', str_prop props ''title'', str_prop props ''aim'',
            strs_prop st props ''highlights'', str_prop props ''program'') of
        (Some i, Some t, Some a, Some hs, Some p) \<Rightarrow>
          Some \<lparr>id' = i, title = t, aim = a, highlights = hs, program = p\<rparr>
      | _ \<Rightarrow> None)"

definition descriptor_at :: "store \<Rightarrow> js_value \<Rightarrow> base_task option" where
  "descriptor_at st v =
     (case v of
        Ref a \<Rightarrow>
          (case cell_at st a of
             Some (Obj props) \<Rightarrow> descriptor_of_props st props
           | _ \<Rightarrow> None)
      | Str s \<Rightarrow> None)"

definition task_at :: "store \<Rightarrow> js_value \<Rightarrow> Task option" where
  "task_at st v =
     (case v of
        Ref a \<Rightarrow>
          (case cell_at st a of
             Some (Obj props) \<Rightarrow>
               (case (descriptor_of_props st props, str_prop props ''code'') of
                  (Some t, Some c) \<Rightarrow> Some (base_task.extend t (Task.fields c))
                | _ \<Rightarrow> None)
           | _ \<Rightarrow> None)
      | Str s \<Rightarrow> None)"

definition array_at :: "store \<Rightarrow> nat \<Rightarrow> (js_value \<Rightarrow> 'a option) \<Rightarrow> 'a list option" where
  "array_at st a f = (case cell_at st a of Some (Arr vs) \<Rightarrow> those (map f vs) | _ \<Rightarrow> None)"

text \<open>
  A result on the store stands for a result on records: the same exception of the host,
  or a value that \<open>R\<close> relates to the record-level value.
\<close>

definition sim_result :: "(js_value \<Rightarrow> 'a \<Rightarrow> bool) \<Rightarrow> 'e thrown + js_value \<Rightarrow> 'e + 'a \<Rightarrow> bool" where
  "sim_result R r' r =
     (case r of
        Inl e \<Rightarrow> r' = Inl (Host e)
      | Inr x \<Rightarrow> (case r' of Inr v \<Rightarrow> R v x | Inl e' \<Rightarrow> False))"

subsection \<open>Example worlds\<close>

text \<open>
  A world in which both programs can be read, and one in which the second cannot.
  Exceptions are error codes; segments are joined with a slash.
\<close>

fun example_join :: "string list \<Rightarrow> string" where
  "example_join [] = ''.''"
| "example_join [s] = s"
| "example_join (s # ss) = s @ ''/'' @ example_join ss"

definition example_files :: "string \<Rightarrow> string \<Rightarrow> string + string" where
  "example_files p encoding =
     (if p = ''/app/php/task1_largest.php'' then Inr ''<?php echo max(3, 7, 5);''
      else if p = ''/app/php/task2_reverse.php'' then Inr ''<?php echo strrev(abc);''
      else Inl ''ENOENT'')"

definition example_world :: "string world" where
  "example_world =
     \<lparr> cwd = ''/app'', join = example_join, readFileSync = example_files, calls = [] \<rparr>"

definition example_files2 :: "string \<Rightarrow> string \<Rightarrow> string + string" where
  "example_files2 p encoding =
     (if p = ''/app/php/task1_largest.php'' then Inr ''<?php echo max(3, 7, 5);''
      else Inl ''ENOENT'')"

definition example_world2 :: "string world" where
  "example_world2 =
     \<lparr> cwd = ''/app'', join = example_join, readFileSync = example_files2, calls = [] \<rparr>"

definition example_styles :: css_module where
  "example_styles k = ''page_'' @ k"

text \<open>Two runtimes that differ in every source of variation.\<close>

definition example_runtime :: runtime where
  "example_runtime =
     \<lparr> math_random = ''0.25'', date_now = ''1700000000000'', request = (\<lambda>k. ''alice'') \<rparr>"

definition example_runtime2 :: runtime where
  "example_runtime2 =
     \<lparr> math_random = ''0.75'', date_now = ''1800000000000'', request = (\<lambda>k. ''bob'') \<rparr>"

text \<open>
  The calls of the host that the construction of \<open>tasks\<close> makes in the example worlds,
  and the records that the first example world gives.
\<close>

definition example_calls :: "call list" where
  "example_calls =
     [ProcessCwd, PathJoin [''/app'', ''php'', ''task1_largest.php''],
      FsReadFileSync ''/app/php/task1_largest.php'' ''utf8'',
      ProcessCwd, PathJoin [''/app'', ''php'', ''task2_reverse.php''],
      FsReadFileSync ''/app/php/task2_reverse.php'' ''utf8'']"

definition example_records :: "Task list" where
  "example_records =
     [base_task.extend (baseTasks ! 0) (Task.fields ''<?php echo max(3, 7, 5);''),
      base_task.extend (baseTasks ! 1) (Task.fields ''<?php echo strrev(abc);'')]"

section \<open>Lemmas\<close>

subsection \<open>The descriptor list\<close>

lemma baseTasks_length: "length baseTasks = 2"
  by (simp add: baseTasks_def)

subsection \<open>The callback and the loop on records\<close>

lemma logged_simps [simp]:
  "cwd (logged cs w) = cwd w"
  "join (logged cs w) = join w"
  "readFileSync (logged cs w) = readFileSync w"
  "calls (logged cs w) = calls w @ cs"
  "filePath_of (logged cs w) = filePath_of w"
  "read_of (logged cs w) = read_of w"
  "callback_calls (logged cs w) = callback_calls w"
  by (simp_all add: logged_def filePath_of_def read_of_def callback_calls_def fun_eq_iff)

lemma logged_logged [simp]: "logged ds (logged cs w) = logged (cs @ ds) w"
  by (simp add: logged_def)

lemma logged_Nil [simp]: "logged [] w = w"
  by (simp add: logged_def)

lemma tasks_callback_eq:
  "tasks_callback task w =
     (case read_of w task of
        Inl e \<Rightarrow> Inl e
      | Inr c \<Rightarrow> Inr (base_task.extend task (Task.fields c)),
      logged (callback_calls w task) w)"
  by (simp add: tasks_callback_def process_cwd_def path_join_def fs_readFileSync_def
      read_of_def filePath_of_def callback_calls_def logged_def split: sum.splits)

lemma tasks_callback_Inr:
  "read_of w task = Inr c \<Longrightarrow>
   tasks_callback task w =
     (Inr (base_task.extend task (Task.fields c)), logged (callback_calls w task) w)"
  by (simp add: tasks_callback_eq)

lemma tasks_callback_Inl:
  "read_of w task = Inl e \<Longrightarrow>
   tasks_callback task w = (Inl e, logged (callback_calls w task) w)"
  by (simp add: tasks_callback_eq)

text \<open>All files readable: the loop returns one record per descriptor, in order.\<close>

lemma array_map_callback_Inr:
  "\<forall>t \<in> set ds. \<exists>c. read_of w t = Inr c \<Longrightarrow>
   array_map tasks_callback ds w =
     (Inr (map (\<lambda>t. base_task.extend t (Task.fields (projr (read_of w t)))) ds),
      logged (concat (map (callback_calls w) ds)) w)"
proof (induction ds arbitrary: w)
  case Nil
  show ?case by simp
next
  case (Cons d ds)
  from Cons.prems obtain c where c: "read_of w d = Inr c" by auto
  have rest: "\<forall>t \<in> set ds. \<exists>c. read_of (logged (callback_calls w d) w) t = Inr c"
    using Cons.prems by simp
  show ?case
    by (simp add: tasks_callback_Inr [OF c] c Cons.IH [OF rest])
qed

text \<open>A first unreadable file: the loop ends there with the exception of that read.\<close>

lemma array_map_callback_Inl:
  "\<forall>t \<in> set pre. \<exists>c. read_of w t = Inr c \<Longrightarrow> read_of w d = Inl e \<Longrightarrow>
   array_map tasks_callback (pre @ d # post) w =
     (Inl e, logged (concat (map (callback_calls w) (pre @ [d]))) w)"
proof (induction pre arbitrary: w)
  case Nil
  then show ?case by (simp add: tasks_callback_Inl)
next
  case (Cons p pre)
  from Cons.prems obtain c where c: "read_of w p = Inr c" by auto
  have rest: "\<forall>t \<in> set pre. \<exists>c. read_of (logged (callback_calls w p) w) t = Inr c"
    and d: "read_of (logged (callback_calls w p) w) d = Inl e"
    using Cons.prems by simp_all
  show ?case
    by (simp add: tasks_callback_Inr [OF c] Cons.IH [OF rest d])
qed

lemma first_unreadable:
  assumes "\<exists>t \<in> set ds. \<exists>e. read_of w t = Inl e"
  obtains pre d post e where "ds = pre @ d # post"
    and "\<forall>t \<in> set pre. \<exists>c. read_of w t = Inr c" and "read_of w d = Inl e"
proof -
  from assms have "\<exists>t \<in> set ds. \<not> (\<exists>c. read_of w t = Inr c)" by force
  then obtain pre d post where ds: "ds = pre @ d # post"
    and d: "\<not> (\<exists>c. read_of w d = Inr c)"
    and pre: "\<forall>t \<in> set pre. \<not> \<not> (\<exists>c. read_of w t = Inr c)"
    by (auto simp: split_list_first_prop_iff)
  from d obtain e where "read_of w d = Inl e" by (cases "read_of w d") auto
  moreover from pre have "\<forall>t \<in> set pre. \<exists>c. read_of w t = Inr c" by blast
  ultimately show ?thesis using ds that by blast
qed

lemma array_map_callback_Inr_readable:
  assumes "array_map tasks_callback ds w = (Inr rs, w')"
  shows "\<forall>t \<in> set ds. \<exists>c. read_of w t = Inr c"
proof (rule ccontr)
  assume "\<not> (\<forall>t \<in> set ds. \<exists>c. read_of w t = Inr c)"
  then have "\<exists>t \<in> set ds. \<exists>e. read_of w t = Inl e"
    by (metis sum.exhaust)
  then obtain pre d post e where ds: "ds = pre @ d # post"
    and pre: "\<forall>t \<in> set pre. \<exists>c. read_of w t = Inr c" and e: "read_of w d = Inl e"
    by (rule first_unreadable)
  from array_map_callback_Inl [OF pre e] assms ds show False by simp
qed

text \<open>What a successful evaluation of \<open>tasks\<close> returns.\<close>

lemma tasks_Inr:
  assumes "tasks w = (Inr rs, w')"
  shows "\<forall>t \<in> set baseTasks. \<exists>c. read_of w t = Inr c"
    and "rs = map (\<lambda>t. base_task.extend t (Task.fields (projr (read_of w t)))) baseTasks"
    and "w' = logged (concat (map (callback_calls w) baseTasks)) w"
proof -
  from assms have am: "array_map tasks_callback baseTasks w = (Inr rs, w')"
    by (simp add: tasks_def)
  then show readable: "\<forall>t \<in> set baseTasks. \<exists>c. read_of w t = Inr c"
    by (rule array_map_callback_Inr_readable)
  from array_map_callback_Inr [OF readable] am
  show "rs = map (\<lambda>t. base_task.extend t (Task.fields (projr (read_of w t)))) baseTasks"
    and "w' = logged (concat (map (callback_calls w) baseTasks)) w"
    by simp_all
qed

text \<open>When every file can be read, the evaluation of \<open>tasks\<close> returns records.\<close>

lemma tasks_returns:
  assumes "\<forall>t \<in> set baseTasks. \<exists>c. read_of w t = Inr c"
  shows "\<exists>rs w'. tasks w = (Inr rs, w')"
  using array_map_callback_Inr [OF assms] by (simp add: tasks_def)

text \<open>
  In every case the world after the evaluation is the world before with the calls of
  the descriptors visited added to its log.
\<close>

lemma tasks_world:
  "\<exists>n \<le> length baseTasks.
     snd (tasks w) = logged (concat (map (callback_calls w) (take n baseTasks))) w"
proof (cases "\<forall>t \<in> set baseTasks. \<exists>c. read_of w t = Inr c")
  case True
  from array_map_callback_Inr [OF True]
  have "snd (tasks w) = logged (concat (map (callback_calls w) (take (length baseTasks) baseTasks))) w"
    by (simp add: tasks_def)
  then show ?thesis by blast
next
  case False
  then have "\<exists>t \<in> set baseTasks. \<exists>e. read_of w t = Inl e"
    by (metis sum.exhaust)
  then obtain pre d post e where ds: "baseTasks = pre @ d # post"
    and pre: "\<forall>t \<in> set pre. \<exists>c. read_of w t = Inr c" and e: "read_of w d = Inl e"
    by (rule first_unreadable)
  have "take (Suc (length pre)) baseTasks = pre @ [d]" by (simp add: ds)
  with array_map_callback_Inl [OF pre e, of post]
  have "snd (tasks w) =
      logged (concat (map (callback_calls w) (take (Suc (length pre)) baseTasks))) w"
    by (simp add: tasks_def ds)
  moreover have "Suc (length pre) \<le> length baseTasks" by (simp add: ds)
  ultimately show ?thesis by blast
qed

subsection \<open>The example worlds\<close>

text \<open>The definitions evaluated in the example worlds.\<close>

lemma baseTasks_nth: "baseTasks = [baseTasks ! 0, baseTasks ! Suc 0]"
  by (simp add: baseTasks_def)

lemma example_reads:
  "read_of example_world (baseTasks ! 0) = Inr ''<?php echo max(3, 7, 5);''"
  "read_of example_world (baseTasks ! Suc 0) = Inr ''<?php echo strrev(abc);''"
  "read_of example_world2 (baseTasks ! 0) = Inr ''<?php echo max(3, 7, 5);''"
  "read_of example_world2 (baseTasks ! Suc 0) = Inl ''ENOENT''"
  by (simp_all add: read_of_def filePath_of_def baseTasks_def example_world_def
      example_world2_def example_files_def example_files2_def)

lemma example_tasks:
  "tasks example_world = (Inr example_records, example_world\<lparr>calls := example_calls\<rparr>)"
  by (simp add: tasks_def baseTasks_def tasks_callback_def process_cwd_def path_join_def
      fs_readFileSync_def example_world_def example_files_def example_records_def
      example_calls_def)

lemma example_tasks2:
  "tasks example_world2 = (Inl ''ENOENT'', example_world2\<lparr>calls := example_calls\<rparr>)"
  by (simp add: tasks_def baseTasks_def tasks_callback_def process_cwd_def path_join_def
      fs_readFileSync_def example_world2_def example_files2_def example_calls_def)

lemma example_serve:
  "serve example_styles example_records [Invoke, Files_changed example_files2, Invoke] w =
     ([Home example_styles example_records, Home example_styles example_records],
      w\<lparr>readFileSync := example_files2\<rparr>)"
  by (simp add: invoke_Home_def)

lemma example_store:
  "\<exists>st w' st'. baseTasks_literal [] = (4, st) \<and> length st = 5 \<and>
     tasks_obj 4 (example_world, st) = (Inr 7, (w', st'))"
  by (simp add: baseTasks_literal_def baseTasks_def descriptor_literal_def new_def
      tasks_obj_def cell_at_def callback_obj_def process_cwd_def path_join_def
      fs_readFileSync_def example_world_def example_files_def nth_append)

subsection \<open>The element tree\<close>

lemma highlight_items_by_tag:
  "t \<noteq> ''li'' \<Longrightarrow>
   filter (\<lambda>m. tag_of m = Some t) (concat (map (descendants \<circ> highlight_item) hs)) = []"
  by (induction hs) (simp_all add: highlight_item_def)

lemma task_card_h3:
  "by_tag ''h3'' (task_card styles t) = [Element ''h3'' None [] [Text (title t)]]"
  by (simp add: by_tag_def task_card_def highlight_items_by_tag)

lemma task_card_details:
  "by_tag ''details'' (task_card styles t) =
     [Element ''details'' None [(''className'', styles ''codeBlock'')]
        [ Element ''summary'' None [] [Text ''Show Program''],
          Element ''pre'' None [] [ Element ''code'' None [] [Text (code t)] ] ]]"
  by (simp add: by_tag_def task_card_def highlight_items_by_tag)

lemma task_card_code:
  "map (\<lambda>d. map text_content (by_tag ''code'' d)) (by_tag ''details'' (task_card styles t)) =
     [[code t]]"
  unfolding task_card_details by (simp add: by_tag_def)

lemma task_card_ul:
  "by_tag ''ul'' (task_card styles t) =
     [Element ''ul'' None [(''className'', styles ''highlightList'')]
        (map highlight_item (highlights t))]"
  by (simp add: by_tag_def task_card_def highlight_items_by_tag)

lemma task_card_a:
  "by_tag ''a'' (task_card styles t) = []"
  by (simp add: by_tag_def task_card_def highlight_items_by_tag)

lemma task_cards_a:
  "filter (\<lambda>m. tag_of m = Some ''a'') (concat (map (descendants \<circ> task_card styles) ts)) = []"
  using task_card_a [of styles]
  by (induction ts) (simp_all add: by_tag_def)

lemma task_cards_details:
  "filter (\<lambda>m. tag_of m = Some ''details'') (concat (map (descendants \<circ> task_card styles) ts)) =
     concat (map (\<lambda>t. by_tag ''details'' (task_card styles t)) ts)"
  by (induction ts) (simp_all add: by_tag_def)

lemma task_cards_are_li:
  "filter (\<lambda>m. tag_of m = Some ''li'') (map (task_card styles) ts) = map (task_card styles) ts"
  by (induction ts) (simp_all add: task_card_def)

lemma Home_task_cards: "task_cards (Home styles ts) = map (task_card styles) ts"
  by (simp add: task_cards_def select_def child_elements_def Home_def task_cards_are_li)

lemma Home_sections:
  "map (\<lambda>s. (attr ''className'' s, map (attr ''href'') (by_tag ''a'' s))) (sections (Home styles ts)) =
     [(Some (styles ''header''), [Some ''/task-report.pdf'', Some ''/task-report.pdf'']),
      (Some (styles ''tasksSection''), [])]"
  by (simp add: sections_def select_def child_elements_def Home_def by_tag_def task_cards_a)

lemma Home_links:
  "map (attr ''href'') (by_tag ''a'' (Home styles ts)) =
     [Some ''/task-report.pdf'', Some ''/task-report.pdf'']"
  by (simp add: Home_def by_tag_def task_cards_a)

lemma Home_details:
  "by_tag ''details'' (Home styles ts) =
     concat (map (\<lambda>t. by_tag ''details'' (task_card styles t)) ts)"
  by (simp add: Home_def by_tag_def task_cards_details)

lemma highlight_items: "items_of (Element ''ul'' k ps (map highlight_item hs)) =
    map (\<lambda>h. (Some ''li'', Some h, h)) hs"
  by (simp add: items_of_def highlight_item_def)

subsection \<open>The syntax of \<open>Home\<close>\<close>

text \<open>The JSX of the source evaluates to the trees of the functions above.\<close>

lemma those_map_Some: "those (map (\<lambda>x. Some (f x)) xs) = Some (map f xs)"
  by (induction xs) simp_all

lemma eval_highlight_src:
  "eval_jsx rt styles ts tv (Some h) highlight_src = Some [highlight_item h]"
  by (simp add: highlight_src_def highlight_item_def eval_props_def)

lemma eval_card_src:
  "eval_jsx rt styles ts (Some t) hv card_src = Some [task_card styles t]"
  by (simp add: card_src_def task_card_def eval_props_def eval_highlight_src those_map_Some
      comp_def)

lemma eval_Home_src:
  "eval_jsx rt styles ts None None Home_src = Some [Home styles ts]"
  by (simp add: Home_src_def Home_def eval_props_def eval_card_src those_map_Some comp_def)

text \<open>
  JSX that does not read the runtime evaluates to the same result in every runtime;
  JSX that reads it need not.
\<close>

lemma eval_expr_runtime:
  "\<not> reads_runtime_expr e \<Longrightarrow> eval_expr rt1 styles tv hv e = eval_expr rt2 styles tv hv e"
  by (cases e) simp_all

lemma eval_key_runtime:
  "\<not> (case k of None \<Rightarrow> False | Some e \<Rightarrow> reads_runtime_expr e) \<Longrightarrow>
   eval_key rt1 styles tv hv k = eval_key rt2 styles tv hv k"
  by (cases k) (simp_all add: eval_expr_runtime [of _ rt1 styles tv hv rt2])

lemma eval_props_runtime:
  assumes "\<not> list_ex (\<lambda>(a, e). reads_runtime_expr e) ps"
  shows "eval_props rt1 styles tv hv ps = eval_props rt2 styles tv hv ps"
proof -
  from assms have "\<And>p. p \<in> set ps \<Longrightarrow>
      (case p of (a, e) \<Rightarrow> map_option (Pair a) (eval_expr rt1 styles tv hv e)) =
      (case p of (a, e) \<Rightarrow> map_option (Pair a) (eval_expr rt2 styles tv hv e))"
    by (auto simp: list_ex_iff eval_expr_runtime [of _ rt1 styles tv hv rt2])
  then have "map (\<lambda>(a, e). map_option (Pair a) (eval_expr rt1 styles tv hv e)) ps =
      map (\<lambda>(a, e). map_option (Pair a) (eval_expr rt2 styles tv hv e)) ps"
    by (rule map_cong [OF refl])
  then show ?thesis by (simp only: eval_props_def)
qed

lemma eval_jsx_runtime:
  "\<not> reads_runtime j \<Longrightarrow>
   eval_jsx rt1 styles ts tv hv j = eval_jsx rt2 styles ts tv hv j"
proof (induction j arbitrary: tv hv)
  case (JElement tag k ps cs)
  from JElement.prems have k: "\<not> (case k of None \<Rightarrow> False | Some e \<Rightarrow> reads_runtime_expr e)"
    and ps: "\<not> list_ex (\<lambda>(a, e). reads_runtime_expr e) ps"
    and cs: "\<forall>c \<in> set cs. \<not> reads_runtime c"
    by (simp_all add: list_ex_iff)
  from cs JElement.IH
  have "\<And>c. c \<in> set cs \<Longrightarrow>
      eval_jsx rt1 styles ts tv hv c = eval_jsx rt2 styles ts tv hv c"
    by simp
  then have "map (eval_jsx rt1 styles ts tv hv) cs = map (eval_jsx rt2 styles ts tv hv) cs"
    by (rule map_cong [OF refl])
  with eval_key_runtime [OF k, of rt1 styles tv hv rt2]
    eval_props_runtime [OF ps, of rt1 styles tv hv rt2]
  show ?case by (simp only: eval_jsx.simps)
next
  case (JText s)
  show ?case by simp
next
  case (JHole e)
  then show ?case by (simp add: eval_expr_runtime [of e rt1 styles tv hv rt2])
next
  case (Tasks_map j)
  then have "\<And>t. eval_jsx rt1 styles ts (Some t) hv j = eval_jsx rt2 styles ts (Some t) hv j"
    by simp
  then show ?case by simp
next
  case (Highlights_map j)
  then have "\<And>t h. eval_jsx rt1 styles ts (Some t) (Some h) j =
      eval_jsx rt2 styles ts (Some t) (Some h) j"
    by simp
  then show ?case by (cases tv) simp_all
qed

lemma eval_jsx_clock_varies:
  "eval_jsx example_runtime styles ts None None (JElement ''p'' None [] [JHole Date_now]) \<noteq>
   eval_jsx example_runtime2 styles ts None None (JElement ''p'' None [] [JHole Date_now])"
  by (simp add: eval_props_def example_runtime_def example_runtime2_def)

subsection \<open>Serving\<close>

lemma serve_outputs:
  "serve styles ts evs w = (outs, w') \<Longrightarrow>
   outs = replicate (length (filter is_invoke evs)) (Home styles ts) \<and> calls w' = calls w"
proof (induction evs arbitrary: w outs w')
  case Nil
  then show ?case by simp
next
  case (Cons ev evs)
  show ?case
  proof (cases ev)
    case Invoke
    obtain ds w2 where rest: "serve styles ts evs w = (ds, w2)"
      by (cases "serve styles ts evs w")
    from Cons.prems rest Invoke have outs: "outs = Home styles ts # ds" and w': "w' = w2"
      by (simp_all add: invoke_Home_def)
    from Cons.IH [OF rest] outs w' Invoke show ?thesis by simp
  next
    case (Files_changed f)
    with Cons.prems have "serve styles ts evs (w\<lparr>readFileSync := f\<rparr>) = (outs, w')" by simp
    from Cons.IH [OF this] Files_changed show ?thesis by simp
  qed
qed

subsection \<open>The store\<close>

lemma those_map_eq_Some:
  "those (map f vs) = Some xs \<longleftrightarrow> list_all2 (\<lambda>v x. f v = Some x) vs xs"
proof (induction vs arbitrary: xs)
  case Nil
  show ?case by auto
next
  case (Cons v vs)
  show ?case
    by (cases xs; cases "f v") (auto simp: Cons.IH)
qed

lemma those_map_the_str: "those (map (the_str \<circ> Str) hs) = Some hs"
  by (induction hs) simp_all

lemma cell_at_append: "cell_at st a = Some c \<Longrightarrow> cell_at (st @ ext) a = Some c"
  by (auto simp: cell_at_def nth_append split: if_splits)

lemma cell_at_new: "cell_at (st @ [c]) (length st) = Some c"
  by (simp add: cell_at_def)

lemma array_at_eq_Some:
  "array_at st a f = Some xs \<longleftrightarrow>
     (\<exists>vs. cell_at st a = Some (Arr vs) \<and> list_all2 (\<lambda>v x. f v = Some x) vs xs)"
  by (auto simp: array_at_def those_map_eq_Some split: option.splits cell.splits)

text \<open>Cells added to a store change nothing of what was read from it before.\<close>

lemma strs_prop_append:
  "strs_prop st props k = Some hs \<Longrightarrow> strs_prop (st @ ext) props k = Some hs"
  by (auto simp: strs_prop_def cell_at_append split: option.splits js_value.splits cell.splits)

lemma descriptor_of_props_append:
  "descriptor_of_props st props = Some t \<Longrightarrow> descriptor_of_props (st @ ext) props = Some t"
  by (auto simp: descriptor_of_props_def strs_prop_append split: option.splits)

lemma descriptor_at_append:
  "descriptor_at st v = Some t \<Longrightarrow> descriptor_at (st @ ext) v = Some t"
  by (auto simp: descriptor_at_def cell_at_append descriptor_of_props_append
      split: js_value.splits option.splits cell.splits)

lemma task_at_append:
  "task_at st v = Some r \<Longrightarrow> task_at (st @ ext) v = Some r"
  by (auto simp: task_at_def cell_at_append descriptor_of_props_append
      split: js_value.splits option.splits cell.splits)

lemma array_at_descriptors_append:
  assumes "array_at st a (descriptor_at st) = Some ds"
  shows "array_at (st @ ext) a (descriptor_at (st @ ext)) = Some ds"
proof -
  from assms obtain vs where cell: "cell_at st a = Some (Arr vs)"
    and all: "list_all2 (\<lambda>v t. descriptor_at st v = Some t) vs ds"
    unfolding array_at_eq_Some by blast
  from all have "list_all2 (\<lambda>v t. descriptor_at (st @ ext) v = Some t) vs ds"
    by (rule list_all2_mono) (rule descriptor_at_append)
  with cell_at_append [OF cell] show ?thesis
    unfolding array_at_eq_Some by blast
qed

text \<open>The literal puts the descriptors into the store.\<close>

lemma descriptor_literal_eq:
  "descriptor_literal t st =
     (Ref (Suc (length st)),
      st @ [Arr (map Str (highlights t)),
            Obj [(''id'', Str (id' t)), (''title'', Str (title t)), (''aim'', Str (aim t)),
                 (''highlights'', Ref (length st)), (''program'', Str (program t))]])"
  by (simp add: descriptor_literal_def new_def)

lemma descriptor_literal_at:
  assumes "descriptor_literal t st = (v, st')"
  shows "descriptor_at st' v = Some t \<and> (\<exists>ext. st' = st @ ext)"
proof -
  let ?props = "[(''id'', Str (id' t)), (''title'', Str (title t)), (''aim'', Str (aim t)),
                 (''highlights'', Ref (length st)), (''program'', Str (program t))]"
  from assms have v: "v = Ref (Suc (length st))"
    and st': "st' = st @ [Arr (map Str (highlights t)), Obj ?props]"
    by (simp_all add: descriptor_literal_eq)
  have c0: "cell_at st' (length st) = Some (Arr (map Str (highlights t)))"
    by (simp add: st' cell_at_def nth_append)
  have c1: "cell_at st' (Suc (length st)) = Some (Obj ?props)"
    by (simp add: st' cell_at_def nth_append)
  have "descriptor_at st' v = Some t"
    by (simp add: v descriptor_at_def c1 descriptor_of_props_def str_prop_def strs_prop_def c0
        those_map_the_str)
  with st' show ?thesis by blast
qed

lemma literals_at:
  "literals ds st = (vs, st') \<Longrightarrow>
     (\<exists>ext. st' = st @ ext) \<and> list_all2 (\<lambda>v t. descriptor_at st' v = Some t) vs ds"
proof (induction ds arbitrary: st vs st')
  case Nil
  then show ?case by simp
next
  case (Cons d ds)
  obtain v st1 where d: "descriptor_literal d st = (v, st1)"
    by (cases "descriptor_literal d st")
  obtain vs1 st2 where r: "literals ds st1 = (vs1, st2)"
    by (cases "literals ds st1")
  from Cons.prems d r have vs: "vs = v # vs1" and st': "st' = st2" by simp_all
  from descriptor_literal_at [OF d] obtain ext1 where v: "descriptor_at st1 v = Some d"
    and e1: "st1 = st @ ext1" by blast
  from Cons.IH [OF r] obtain ext2 where e2: "st2 = st1 @ ext2"
    and all: "list_all2 (\<lambda>v t. descriptor_at st2 v = Some t) vs1 ds" by blast
  have "descriptor_at st2 v = Some d" using v e2 by (simp add: descriptor_at_append)
  moreover have "st2 = st @ (ext1 @ ext2)" using e1 e2 by simp
  ultimately show ?case using all vs st' by blast
qed

lemma baseTasks_literal_at:
  assumes "baseTasks_literal s0 = (b, st)"
  shows "array_at st b (descriptor_at st) = Some baseTasks"
proof -
  obtain vs st1 where l: "literals baseTasks s0 = (vs, st1)"
    by (cases "literals baseTasks s0")
  with assms have b: "b = length st1" and st: "st = st1 @ [Arr vs]"
    by (simp_all add: baseTasks_literal_def new_def)
  from literals_at [OF l] have "list_all2 (\<lambda>v t. descriptor_at st1 v = Some t) vs baseTasks"
    by blast
  then have "list_all2 (\<lambda>v t. descriptor_at st v = Some t) vs baseTasks"
    unfolding st by (rule list_all2_mono) (rule descriptor_at_append)
  moreover have "cell_at st b = Some (Arr vs)" by (simp add: b st cell_at_new)
  ultimately show ?thesis unfolding array_at_eq_Some by blast
qed

text \<open>
  The callback on objects does what the callback on records does: given an object that
  stands for a descriptor, it leaves the same world, throws the same exception or
  returns an object that stands for the same record, and only adds cells to the store.
\<close>

lemma callback_obj_sim:
  assumes "descriptor_at st v = Some t"
  shows "\<exists>ext r'. callback_obj v (w, st) = (r', (snd (tasks_callback t w), st @ ext)) \<and>
           sim_result (\<lambda>v' r. task_at (st @ ext) v' = Some r) r' (fst (tasks_callback t w))"
proof -
  from assms obtain a props where v: "v = Ref a" and cell: "cell_at st a = Some (Obj props)"
    and props: "descriptor_of_props st props = Some t"
    by (auto simp: descriptor_at_def split: js_value.splits option.splits cell.splits)
  from props have prog: "map_of props ''program'' = Some (Str (program t))"
    by (auto simp: descriptor_of_props_def str_prop_def split: option.splits js_value.splits)
  show ?thesis
  proof (cases "read_of w t")
    case (Inl e)
    then have "callback_obj v (w, st) = (Inl (Host e), (logged (callback_calls w t) w, st @ []))"
      by (simp add: callback_obj_def v cell prog process_cwd_def path_join_def
          fs_readFileSync_def read_of_def filePath_of_def callback_calls_def logged_def)
    with tasks_callback_Inl [OF Inl] show ?thesis
      by (intro exI [of _ "[]"] exI [of _ "Inl (Host e)"]) (simp add: sim_result_def)
  next
    case (Inr c)
    let ?props = "AList.update ''code'' (Str c) props"
    have cb: "callback_obj v (w, st) =
        (Inr (Ref (length st)), (logged (callback_calls w t) w, st @ [Obj ?props]))"
      using Inr
      by (simp add: callback_obj_def v cell prog process_cwd_def path_join_def
          fs_readFileSync_def read_of_def filePath_of_def callback_calls_def logged_def new_def)
    have "descriptor_of_props st ?props = Some t"
      using props
      by (simp add: descriptor_of_props_def str_prop_def strs_prop_def update_conv')
    then have "descriptor_of_props (st @ [Obj ?props]) ?props = Some t"
      by (rule descriptor_of_props_append)
    moreover have "str_prop ?props ''code'' = Some c"
      by (simp add: str_prop_def update_conv')
    ultimately have "task_at (st @ [Obj ?props]) (Ref (length st)) =
        Some (base_task.extend t (Task.fields c))"
      by (simp add: task_at_def cell_at_new)
    with cb tasks_callback_Inr [OF Inr] show ?thesis
      by (intro exI [of _ "[Obj ?props]"] exI [of _ "Inr (Ref (length st))"])
        (simp add: sim_result_def)
  qed
qed

lemma array_map_obj_sim:
  "list_all2 (\<lambda>v t. descriptor_at st v = Some t) vs ds \<Longrightarrow>
   \<exists>ext r'. array_map callback_obj vs (w, st) =
               (r', (snd (array_map tasks_callback ds w), st @ ext)) \<and>
     (case fst (array_map tasks_callback ds w) of
        Inl e \<Rightarrow> r' = Inl (Host e)
      | Inr rs \<Rightarrow> (\<exists>vs'. r' = Inr vs' \<and> list_all2 (\<lambda>v r. task_at (st @ ext) v = Some r) vs' rs))"
proof (induction vs arbitrary: ds w st)
  case Nil
  then show ?case by simp
next
  case (Cons v vs)
  from Cons.prems obtain t ds' where ds: "ds = t # ds'"
    and vt: "descriptor_at st v = Some t"
    and rest_ok: "list_all2 (\<lambda>v t. descriptor_at st v = Some t) vs ds'"
    by (auto simp: list_all2_Cons1)
  obtain ext1 r1 where cb: "callback_obj v (w, st) = (r1, (snd (tasks_callback t w), st @ ext1))"
    and s1: "sim_result (\<lambda>v' r. task_at (st @ ext1) v' = Some r) r1 (fst (tasks_callback t w))"
    using callback_obj_sim [OF vt, of w] by (elim exE conjE) (rule that)
  obtain x w1 where tc: "tasks_callback t w = (x, w1)"
    by (cases "tasks_callback t w")
  show ?case
  proof (cases x)
    case (Inl e)
    with s1 tc have "r1 = Inl (Host e)" by (simp add: sim_result_def)
    with cb tc Inl ds show ?thesis by auto
  next
    case (Inr r)
    with s1 tc obtain v' where r1: "r1 = Inr v'" and v': "task_at (st @ ext1) v' = Some r"
      by (auto simp: sim_result_def split: sum.splits)
    have "list_all2 (\<lambda>v t. descriptor_at (st @ ext1) v = Some t) vs ds'"
      using rest_ok by (rule list_all2_mono) (rule descriptor_at_append)
    from Cons.IH [OF this, of w1] obtain ext2 r2 where
      am: "array_map callback_obj vs (w1, st @ ext1) =
             (r2, (snd (array_map tasks_callback ds' w1), (st @ ext1) @ ext2))"
      and s2: "case fst (array_map tasks_callback ds' w1) of
                 Inl e \<Rightarrow> r2 = Inl (Host e)
               | Inr rs \<Rightarrow> (\<exists>vs'. r2 = Inr vs' \<and>
                   list_all2 (\<lambda>v r. task_at ((st @ ext1) @ ext2) v = Some r) vs' rs)"
      by blast
    obtain y w2 where rest: "array_map tasks_callback ds' w1 = (y, w2)"
      by (cases "array_map tasks_callback ds' w1")
    show ?thesis
    proof (cases y)
      case (Inl e)
      with s2 rest have "r2 = Inl (Host e)" by simp
      with cb tc \<open>x = Inr r\<close> r1 am rest Inl ds show ?thesis
        by (intro exI [of _ "ext1 @ ext2"]) simp
    next
      case (Inr rs)
      with s2 rest obtain vs' where r2: "r2 = Inr vs'"
        and all: "list_all2 (\<lambda>v r. task_at ((st @ ext1) @ ext2) v = Some r) vs' rs"
        by auto
      have "task_at ((st @ ext1) @ ext2) v' = Some r" using v' by (rule task_at_append)
      with cb tc \<open>x = Inr r\<close> r1 am rest Inr r2 all ds show ?thesis
        by (intro exI [of _ "ext1 @ ext2"]) simp
    qed
  qed
qed

text \<open>
  The construction of \<open>tasks\<close> on the store and on records: from a store in which \<open>b\<close>
  is the array of the descriptors, both leave the same world; they throw the same
  exception, or the new array stands for the list of records; and the store has only
  grown.
\<close>

lemma tasks_obj_sim:
  assumes "array_at st b (descriptor_at st) = Some baseTasks"
  shows "\<exists>ext r'. tasks_obj b (w, st) = (r', (snd (tasks w), st @ ext)) \<and>
           (case fst (tasks w) of
              Inl e \<Rightarrow> r' = Inl (Host e)
            | Inr rs \<Rightarrow> (\<exists>a. r' = Inr a \<and> array_at (st @ ext) a (task_at (st @ ext)) = Some rs))"
proof -
  from assms obtain vs where cell: "cell_at st b = Some (Arr vs)"
    and all: "list_all2 (\<lambda>v t. descriptor_at st v = Some t) vs baseTasks"
    unfolding array_at_eq_Some by blast
  from array_map_obj_sim [OF all, of w] obtain ext r1 where
    am: "array_map callback_obj vs (w, st) = (r1, (snd (tasks w), st @ ext))"
    and s: "case fst (tasks w) of
              Inl e \<Rightarrow> r1 = Inl (Host e)
            | Inr rs \<Rightarrow> (\<exists>vs'. r1 = Inr vs' \<and> list_all2 (\<lambda>v r. task_at (st @ ext) v = Some r) vs' rs)"
    unfolding tasks_def by blast
  show ?thesis
  proof (cases "fst (tasks w)")
    case (Inl e)
    with s have "r1 = Inl (Host e)" by simp
    with am cell Inl show ?thesis
      by (intro exI [of _ ext]) (simp add: tasks_obj_def)
  next
    case (Inr rs)
    with s obtain vs' where r1: "r1 = Inr vs'"
      and all': "list_all2 (\<lambda>v r. task_at (st @ ext) v = Some r) vs' rs" by auto
    have t: "tasks_obj b (w, st) =
        (Inr (length (st @ ext)), (snd (tasks w), (st @ ext) @ [Arr vs']))"
      by (simp add: tasks_obj_def cell am r1 new_def)
    have "list_all2 (\<lambda>v r. task_at ((st @ ext) @ [Arr vs']) v = Some r) vs' rs"
      using all' by (rule list_all2_mono) (rule task_at_append)
    then have "array_at ((st @ ext) @ [Arr vs']) (length (st @ ext))
        (task_at ((st @ ext) @ [Arr vs'])) = Some rs"
      unfolding array_at_eq_Some using cell_at_new [of "st @ ext" "Arr vs'"] by blast
    with t Inr show ?thesis
      by (intro exI [of _ "ext @ [Arr vs']"]) simp
  qed
qed

section \<open>The claims about the task records\<close>

text \<open>
  C6. In the fixed descriptor list the \<open>id\<close> values are pairwise distinct: two
  descriptors at different positions have different \<open>id\<close> fields.
\<close>

theorem baseTasks_ids_distinct:
  "distinct (map id' baseTasks) \<and>
   (\<forall>i j. i < length baseTasks \<longrightarrow> j < length baseTasks \<longrightarrow> i \<noteq> j \<longrightarrow>
      id' (baseTasks ! i) \<noteq> id' (baseTasks ! j))"
proof -
  have d: "distinct (map id' baseTasks)"
    by (simp add: baseTasks_def)
  have "id' (baseTasks ! i) \<noteq> id' (baseTasks ! j)"
    if "i < length baseTasks" "j < length baseTasks" "i \<noteq> j" for i j
    using d that by (auto simp: distinct_conv_nth)
  with d show ?thesis by blast
qed

theorem baseTasks_ids_distinct_witness:
  "(0::nat) < length baseTasks \<and> (1::nat) < length baseTasks \<and> (0::nat) \<noteq> 1 \<and>
   id' (baseTasks ! 0) \<noteq> id' (baseTasks ! 1)"
proof -
  have "(0::nat) < length baseTasks \<longrightarrow> (1::nat) < length baseTasks \<longrightarrow> (0::nat) \<noteq> 1 \<longrightarrow>
      id' (baseTasks ! 0) \<noteq> id' (baseTasks ! 1)"
    using baseTasks_ids_distinct by blast
  then show ?thesis by (simp add: baseTasks_length)
qed

text \<open>
  C1. For every descriptor of the fixed list, the record that the construction of
  \<open>tasks\<close> produces for it has as its \<open>code\<close> exactly the text that the read of the
  file at the descriptor's path gives, with nothing done to it. The path is
  \<open>join [cwd, ''php'', program]\<close> and the read is \<open>readFileSync path ''utf8''\<close>.
\<close>

theorem tasks_code_is_file_text:
  assumes "tasks w = (Inr rs, w')"
  shows "length rs = length baseTasks \<and>
         (\<forall>i < length baseTasks.
            readFileSync w (filePath_of w (baseTasks ! i)) ''utf8'' = Inr (code (rs ! i)))"
proof (intro conjI allI impI)
  show "length rs = length baseTasks"
    using tasks_Inr(2) [OF assms] by simp
next
  fix i assume i: "i < length baseTasks"
  let ?t = "baseTasks ! i"
  from i have "?t \<in> set baseTasks" by simp
  with tasks_Inr(1) [OF assms] obtain c where c: "read_of w ?t = Inr c" by blast
  from tasks_Inr(2) [OF assms] i
  have "rs ! i = base_task.extend ?t (Task.fields (projr (read_of w ?t)))" by simp
  then have "code (rs ! i) = c"
    by (simp add: c base_task.defs Task.defs)
  with c show "readFileSync w (filePath_of w ?t) ''utf8'' = Inr (code (rs ! i))"
    by (simp add: read_of_def)
qed

theorem tasks_code_is_file_text_witness:
  "tasks example_world = (Inr example_records, example_world\<lparr>calls := example_calls\<rparr>) \<and>
   (1::nat) < length baseTasks \<and>
   filePath_of example_world (baseTasks ! 1) = ''/app/php/task2_reverse.php'' \<and>
   example_files ''/app/php/task2_reverse.php'' ''utf8'' = Inr (code (example_records ! 1)) \<and>
   code (example_records ! 1) = ''<?php echo strrev(abc);''"
proof -
  have p: "filePath_of example_world (baseTasks ! 1) = ''/app/php/task2_reverse.php''"
    by (simp add: filePath_of_def example_world_def baseTasks_def)
  have "(1::nat) < length baseTasks \<longrightarrow>
      readFileSync example_world (filePath_of example_world (baseTasks ! 1)) ''utf8'' =
        Inr (code (example_records ! 1))"
    using tasks_code_is_file_text [OF example_tasks] by blast
  then have "readFileSync example_world (filePath_of example_world (baseTasks ! 1)) ''utf8'' =
      Inr (code (example_records ! 1))"
    by (simp add: baseTasks_length)
  with p have "readFileSync example_world ''/app/php/task2_reverse.php'' ''utf8'' =
      Inr (code (example_records ! 1))"
    by simp
  then have "example_files ''/app/php/task2_reverse.php'' ''utf8'' =
      Inr (code (example_records ! 1))"
    by (simp add: example_world_def)
  moreover have "code (example_records ! 1) = ''<?php echo strrev(abc);''"
    by (simp add: example_records_def base_task.defs Task.defs)
  ultimately show ?thesis
    using example_tasks p by (simp add: baseTasks_length)
qed

text \<open>
  C2. The construction of \<open>tasks\<close> from the fixed descriptor list returns a sequence of
  the same length and in the same order: the record at index \<open>i\<close> is the one made from
  the descriptor at index \<open>i\<close> (without its \<open>code\<close> it is that descriptor).
\<close>

theorem tasks_same_length_same_order:
  assumes "tasks w = (Inr rs, w')"
  shows "length rs = length baseTasks \<and>
         (\<forall>i < length baseTasks. base_task.truncate (rs ! i) = baseTasks ! i)"
  using tasks_Inr(2) [OF assms] by (simp add: base_task.defs Task.defs)

theorem tasks_same_length_same_order_witness:
  "tasks example_world = (Inr example_records, example_world\<lparr>calls := example_calls\<rparr>) \<and>
   length example_records = 2 \<and>
   base_task.truncate (example_records ! 0) = baseTasks ! 0 \<and>
   base_task.truncate (example_records ! 1) = baseTasks ! 1"
proof -
  from tasks_same_length_same_order [OF example_tasks]
  have "length example_records = length baseTasks"
    and "(0::nat) < length baseTasks \<longrightarrow>
      base_task.truncate (example_records ! 0) = baseTasks ! 0"
    and "(1::nat) < length baseTasks \<longrightarrow>
      base_task.truncate (example_records ! 1) = baseTasks ! 1"
    by blast+
  with example_tasks show ?thesis
    by (simp add: baseTasks_length)
qed

text \<open>
  C9. For every descriptor the record produced keeps all the descriptor's fields as they
  are (\<open>id\<close>, \<open>title\<close>, \<open>aim\<close>, \<open>highlights\<close> and \<open>program\<close>, the name of the source
  file), and the only field added is \<open>code\<close>: the record is the descriptor extended by
  its \<open>code\<close>.
\<close>

theorem tasks_keep_descriptor_fields:
  assumes "tasks w = (Inr rs, w')" and "i < length baseTasks"
  shows "id' (rs ! i) = id' (baseTasks ! i) \<and>
         title (rs ! i) = title (baseTasks ! i) \<and>
         aim (rs ! i) = aim (baseTasks ! i) \<and>
         highlights (rs ! i) = highlights (baseTasks ! i) \<and>
         program (rs ! i) = program (baseTasks ! i) \<and>
         rs ! i = base_task.extend (baseTasks ! i) (Task.fields (code (rs ! i)))"
proof -
  from tasks_Inr(2) [OF assms(1)] assms(2)
  have "rs ! i = base_task.extend (baseTasks ! i)
      (Task.fields (projr (read_of w (baseTasks ! i))))"
    by simp
  then show ?thesis
    by (simp add: base_task.defs Task.defs)
qed

theorem tasks_keep_descriptor_fields_witness:
  "tasks example_world = (Inr example_records, example_world\<lparr>calls := example_calls\<rparr>) \<and>
   (0::nat) < length baseTasks \<and>
   id' (example_records ! 0) = ''task-1'' \<and>
   program (example_records ! 0) = ''task1_largest.php'' \<and>
   highlights (example_records ! 0) = highlights (baseTasks ! 0) \<and>
   example_records ! 0 =
     base_task.extend (baseTasks ! 0) (Task.fields (code (example_records ! 0)))"
proof -
  have len: "(0::nat) < length baseTasks" by (simp add: baseTasks_length)
  from tasks_keep_descriptor_fields [OF example_tasks len]
  have "id' (example_records ! 0) = id' (baseTasks ! 0)"
    and "program (example_records ! 0) = program (baseTasks ! 0)"
    and "highlights (example_records ! 0) = highlights (baseTasks ! 0)"
    and "example_records ! 0 =
      base_task.extend (baseTasks ! 0) (Task.fields (code (example_records ! 0)))"
    by blast+
  moreover have "id' (baseTasks ! 0) = ''task-1''"
    and "program (baseTasks ! 0) = ''task1_largest.php''"
    by (simp_all add: baseTasks_def)
  ultimately show ?thesis
    using example_tasks len by simp
qed

text \<open>
  C3. If the file of some descriptor cannot be read, the construction of \<open>tasks\<close> fails
  with the exception of a read, that of the first descriptor whose file cannot be read,
  and the whole render fails with it: there is no sequence of records and no document,
  and the files of the descriptors after that one are not read.
\<close>

theorem tasks_fail_on_unreadable_file:
  assumes "t \<in> set baseTasks" and "read_of w t = Inl e0"
  shows "\<exists>pre d post e.
           baseTasks = pre @ d # post \<and>
           (\<forall>p \<in> set pre. \<exists>c. read_of w p = Inr c) \<and>
           read_of w d = Inl e \<and>
           fst (tasks w) = Inl e \<and>
           fst (render_page styles w) = Inl e \<and>
           calls (snd (render_page styles w)) =
             calls w @ concat (map (callback_calls w) (pre @ [d]))"
proof -
  from assms have "\<exists>t \<in> set baseTasks. \<exists>e. read_of w t = Inl e" by blast
  then obtain pre d post e where ds: "baseTasks = pre @ d # post"
    and pre: "\<forall>t \<in> set pre. \<exists>c. read_of w t = Inr c" and e: "read_of w d = Inl e"
    by (rule first_unreadable)
  from array_map_callback_Inl [OF pre e, of post]
  have t: "tasks w = (Inl e, logged (concat (map (callback_calls w) (pre @ [d]))) w)"
    by (simp add: tasks_def ds)
  then have r: "render_page styles w =
      (Inl e, logged (concat (map (callback_calls w) (pre @ [d]))) w)"
    by (simp add: render_page_def)
  from ds pre e t r show ?thesis
    by (intro exI [of _ pre] exI [of _ d] exI [of _ post] exI [of _ e]) simp
qed

theorem tasks_fail_on_unreadable_file_witness:
  "baseTasks ! 1 \<in> set baseTasks \<and>
   read_of example_world2 (baseTasks ! 1) = Inl ''ENOENT'' \<and>
   tasks example_world2 = (Inl ''ENOENT'', example_world2\<lparr>calls := example_calls\<rparr>) \<and>
   (\<exists>e. fst (tasks example_world2) = Inl e \<and>
        fst (render_page example_styles example_world2) = Inl e)"
proof -
  have m: "baseTasks ! 1 \<in> set baseTasks" by (simp add: baseTasks_length)
  have r: "read_of example_world2 (baseTasks ! 1) = Inl ''ENOENT''"
    by (simp add: example_reads)
  from tasks_fail_on_unreadable_file [OF m r, of example_styles]
  have "\<exists>e. fst (tasks example_world2) = Inl e \<and>
        fst (render_page example_styles example_world2) = Inl e"
    by blast
  with m r example_tasks2 show ?thesis by blast
qed

section \<open>The claims about the page\<close>

text \<open>
  C7. In every task card of the page the highlights are an unordered list: the card has
  one \<open>ul\<close>, its children are \<open>li\<close> elements, one per highlight and in the order of
  the task's \<open>highlights\<close>, and each has its own text as key and as content.
\<close>

theorem highlights_listed_in_order_keyed_by_text:
  "map (\<lambda>c. map items_of (by_tag ''ul'' c)) (task_cards (Home styles ts)) =
   map (\<lambda>t. [map (\<lambda>h. (Some ''li'', Some h, h)) (highlights t)]) ts"
  by (simp add: Home_task_cards task_card_ul highlight_items)

text \<open>
  C5. With the two descriptors of the source and two files that can be read, the page
  has exactly two task cards, with the titles of the descriptors; each card has one
  \<open>details\<close> element, without the attribute \<open>open\<close> (so it is closed until the viewer
  opens it), whose \<open>code\<close> element holds the text of the card's file, unchanged; and the
  page has exactly two links, both in the header section and both to the same path.
\<close>

theorem page_has_two_cards_and_two_links:
  assumes "read_of w (baseTasks ! 0) = Inr c1" and "read_of w (baseTasks ! 1) = Inr c2"
  shows "\<exists>doc w'. render_page styles w = (Inr doc, w') \<and>
     map key_of (task_cards doc) = [Some ''task-1'', Some ''task-2''] \<and>
     map (\<lambda>c. map text_content (by_tag ''h3'' c)) (task_cards doc) =
       [[title (baseTasks ! 0)], [title (baseTasks ! 1)]] \<and>
     map (\<lambda>c. map (attr ''open'') (by_tag ''details'' c)) (task_cards doc) = [[None], [None]] \<and>
     map (\<lambda>c. map (\<lambda>d. map text_content (by_tag ''code'' d)) (by_tag ''details'' c))
       (task_cards doc) = [[[c1]], [[c2]]] \<and>
     length (by_tag ''details'' doc) = 2 \<and>
     map (attr ''href'') (by_tag ''a'' doc) =
       [Some ''/task-report.pdf'', Some ''/task-report.pdf''] \<and>
     map (\<lambda>s. (attr ''className'' s, map (attr ''href'') (by_tag ''a'' s))) (sections doc) =
       [(Some (styles ''header''), [Some ''/task-report.pdf'', Some ''/task-report.pdf'']),
        (Some (styles ''tasksSection''), [])]"
proof -
  let ?r1 = "base_task.extend (baseTasks ! 0) (Task.fields c1)"
  let ?r2 = "base_task.extend (baseTasks ! Suc 0) (Task.fields c2)"
  let ?w' = "logged (concat (map (callback_calls w) baseTasks)) w"
  from assms have reads: "read_of w (baseTasks ! 0) = Inr c1" "read_of w (baseTasks ! Suc 0) = Inr c2"
    by simp_all
  have "\<forall>t \<in> set [baseTasks ! 0, baseTasks ! Suc 0]. \<exists>c. read_of w t = Inr c"
    by (simp add: reads)
  then have readable: "\<forall>t \<in> set baseTasks. \<exists>c. read_of w t = Inr c"
    using baseTasks_nth by simp
  have "map (\<lambda>t. base_task.extend t (Task.fields (projr (read_of w t)))) baseTasks =
      map (\<lambda>t. base_task.extend t (Task.fields (projr (read_of w t))))
        [baseTasks ! 0, baseTasks ! Suc 0]"
    using baseTasks_nth by simp
  with array_map_callback_Inr [OF readable]
  have "tasks w = (Inr [?r1, ?r2], ?w')"
    by (simp add: tasks_def reads)
  then have page: "render_page styles w = (Inr (Home styles [?r1, ?r2]), ?w')"
    by (simp add: render_page_def)
  have ids: "id' (baseTasks ! 0) = ''task-1''" "id' (baseTasks ! Suc 0) = ''task-2''"
    by (simp_all add: baseTasks_def)
  have keys: "map key_of (task_cards (Home styles [?r1, ?r2])) = [Some ''task-1'', Some ''task-2'']"
    by (simp add: Home_task_cards task_card_def base_task.defs Task.defs ids)
  have titles: "map (\<lambda>c. map text_content (by_tag ''h3'' c)) (task_cards (Home styles [?r1, ?r2])) =
       [[title (baseTasks ! 0)], [title (baseTasks ! 1)]]"
    by (simp add: Home_task_cards task_card_h3 base_task.defs Task.defs)
  have closed: "map (\<lambda>c. map (attr ''open'') (by_tag ''details'' c))
      (task_cards (Home styles [?r1, ?r2])) = [[None], [None]]"
    by (simp add: Home_task_cards task_card_details)
  have texts: "map (\<lambda>c. map (\<lambda>d. map text_content (by_tag ''code'' d)) (by_tag ''details'' c))
       (task_cards (Home styles [?r1, ?r2])) = [[[c1]], [[c2]]]"
    by (simp add: Home_task_cards task_card_code base_task.defs Task.defs)
  have widgets: "length (by_tag ''details'' (Home styles [?r1, ?r2])) = 2"
    by (simp add: Home_details task_card_details)
  from page keys titles closed texts widgets Home_links [of styles "[?r1, ?r2]"]
    Home_sections [of styles "[?r1, ?r2]"]
  show ?thesis by (intro exI conjI)
qed

theorem page_has_two_cards_and_two_links_witness:
  "read_of example_world (baseTasks ! 0) = Inr ''<?php echo max(3, 7, 5);'' \<and>
   read_of example_world (baseTasks ! 1) = Inr ''<?php echo strrev(abc);'' \<and>
   (\<exists>doc w'. render_page example_styles example_world = (Inr doc, w') \<and>
      map key_of (task_cards doc) = [Some ''task-1'', Some ''task-2''] \<and>
      map (\<lambda>c. map (\<lambda>d. map text_content (by_tag ''code'' d)) (by_tag ''details'' c))
        (task_cards doc) = [[[''<?php echo max(3, 7, 5);'']], [[''<?php echo strrev(abc);'']]] \<and>
      map (attr ''href'') (by_tag ''a'' doc) =
        [Some ''/task-report.pdf'', Some ''/task-report.pdf''] \<and>
      map (attr ''className'') (sections doc) = [Some ''page_header'', Some ''page_tasksSection''])"
proof -
  have r1: "read_of example_world (baseTasks ! 0) = Inr ''<?php echo max(3, 7, 5);''"
    and r2: "read_of example_world (baseTasks ! 1) = Inr ''<?php echo strrev(abc);''"
    by (simp_all add: example_reads)
  from page_has_two_cards_and_two_links [OF r1 r2, of example_styles]
  obtain doc w' where "render_page example_styles example_world = (Inr doc, w')"
    and "map key_of (task_cards doc) = [Some ''task-1'', Some ''task-2'']"
    and "map (\<lambda>c. map (\<lambda>d. map text_content (by_tag ''code'' d)) (by_tag ''details'' c))
        (task_cards doc) = [[[''<?php echo max(3, 7, 5);'']], [[''<?php echo strrev(abc);'']]]"
    and "map (attr ''href'') (by_tag ''a'' doc) =
        [Some ''/task-report.pdf'', Some ''/task-report.pdf'']"
    and s: "map (\<lambda>s. (attr ''className'' s, map (attr ''href'') (by_tag ''a'' s))) (sections doc) =
       [(Some (example_styles ''header''), [Some ''/task-report.pdf'', Some ''/task-report.pdf'']),
        (Some (example_styles ''tasksSection''), [])]"
    by (elim exE conjE) (rule that)
  moreover have "map (attr ''className'') (sections doc) =
      [Some ''page_header'', Some ''page_tasksSection'']"
  proof -
    have "map (attr ''className'') (sections doc) =
        map fst (map (\<lambda>s. (attr ''className'' s, map (attr ''href'') (by_tag ''a'' s))) (sections doc))"
      by (simp add: comp_def)
    then show ?thesis unfolding s by (simp add: example_styles_def)
  qed
  ultimately show ?thesis using r1 r2 by (intro conjI exI)
qed

text \<open>
  C4. \<open>Home\<close> is deterministic. No expression of its body reads a source of variation
  (a random number, the clock, the data of the request of a viewer), so for every list
  of task records and every table of class names the body evaluates to the same tree in
  any two runtimes: two calls with the same records return the same tree, which is
  \<open>Home styles ts\<close>.
\<close>

theorem Home_deterministic:
  "\<not> reads_runtime Home_src \<and>
   eval_jsx rt1 styles ts None None Home_src = eval_jsx rt2 styles ts None None Home_src \<and>
   eval_jsx rt1 styles ts None None Home_src = Some [Home styles ts]"
proof (intro conjI)
  show none: "\<not> reads_runtime Home_src"
    by (simp add: Home_src_def card_src_def highlight_src_def)
  from none show "eval_jsx rt1 styles ts None None Home_src =
      eval_jsx rt2 styles ts None None Home_src"
    by (rule eval_jsx_runtime)
  show "eval_jsx rt1 styles ts None None Home_src = Some [Home styles ts]"
    by (rule eval_Home_src)
qed

theorem Home_deterministic_witness:
  "date_now example_runtime \<noteq> date_now example_runtime2 \<and>
   math_random example_runtime \<noteq> math_random example_runtime2 \<and>
   request example_runtime ''cookie'' \<noteq> request example_runtime2 ''cookie'' \<and>
   eval_jsx example_runtime example_styles example_records None None Home_src =
     eval_jsx example_runtime2 example_styles example_records None None Home_src \<and>
   eval_jsx example_runtime2 example_styles example_records None None Home_src =
     Some [Home example_styles example_records]"
proof -
  from Home_deterministic [of example_runtime example_styles example_records example_runtime2]
  have "eval_jsx example_runtime example_styles example_records None None Home_src =
      eval_jsx example_runtime2 example_styles example_records None None Home_src"
    and "eval_jsx example_runtime example_styles example_records None None Home_src =
      Some [Home example_styles example_records]"
    by blast+
  then show ?thesis
    by (simp add: example_runtime_def example_runtime2_def)
qed

text \<open>
  C10. The files are read when the module is loaded and at no other time: loading
  makes exactly one read per descriptor, and \<open>Home\<close> makes no call of the host at all.
  So after the module is loaded, whatever happens to the files, every call of \<open>Home\<close>
  returns the tree of the records that were built at load time.
\<close>

theorem files_read_once_at_load:
  assumes "tasks w = (Inr ts, w1)" and "serve styles ts evs w1 = (outs, w2)"
  shows "filter is_read (calls w1) =
           filter is_read (calls w) @
             map (\<lambda>t. FsReadFileSync (filePath_of w t) ''utf8'') baseTasks \<and>
         calls w2 = calls w1 \<and>
         outs = replicate (length (filter is_invoke evs)) (Home styles ts)"
proof -
  have "filter is_read (concat (map (callback_calls w) ds)) =
      map (\<lambda>t. FsReadFileSync (filePath_of w t) ''utf8'') ds" for ds
    by (induction ds) (simp_all add: callback_calls_def)
  with tasks_Inr(3) [OF assms(1)]
  have "filter is_read (calls w1) =
      filter is_read (calls w) @ map (\<lambda>t. FsReadFileSync (filePath_of w t) ''utf8'') baseTasks"
    by simp
  with serve_outputs [OF assms(2)] show ?thesis by simp
qed

theorem files_read_once_at_load_witness:
  "tasks example_world = (Inr example_records, example_world\<lparr>calls := example_calls\<rparr>) \<and>
   serve example_styles example_records [Invoke, Files_changed example_files2, Invoke]
     (example_world\<lparr>calls := example_calls\<rparr>) =
     ([Home example_styles example_records, Home example_styles example_records],
      example_world\<lparr>calls := example_calls, readFileSync := example_files2\<rparr>) \<and>
   filter is_read example_calls =
     [FsReadFileSync ''/app/php/task1_largest.php'' ''utf8'',
      FsReadFileSync ''/app/php/task2_reverse.php'' ''utf8'']"
proof -
  let ?w1 = "example_world\<lparr>calls := example_calls\<rparr>"
  let ?evs = "[Invoke, Files_changed example_files2, Invoke]"
  have s: "serve example_styles example_records ?evs ?w1 =
      ([Home example_styles example_records, Home example_styles example_records],
       ?w1\<lparr>readFileSync := example_files2\<rparr>)"
    by (rule example_serve)
  from files_read_once_at_load [OF example_tasks s]
  have "filter is_read (calls ?w1) =
      filter is_read (calls example_world) @
        map (\<lambda>t. FsReadFileSync (filePath_of example_world t) ''utf8'') baseTasks"
    by blast
  then have "filter is_read example_calls =
      map (\<lambda>t. FsReadFileSync (filePath_of example_world t) ''utf8'') baseTasks"
    by (simp add: example_world_def)
  also have "\<dots> = [FsReadFileSync ''/app/php/task1_largest.php'' ''utf8'',
      FsReadFileSync ''/app/php/task2_reverse.php'' ''utf8'']"
    by (simp add: baseTasks_def filePath_of_def example_world_def)
  finally show ?thesis using example_tasks s by simp
qed

section \<open>The claims about effects\<close>

text \<open>
  C8. The construction of \<open>tasks\<close> only reads: the calls it makes of the host are, for
  each descriptor it visits, \<open>process.cwd\<close>, \<open>path.join\<close> and one \<open>fs.readFileSync\<close>,
  and no other; what the files, the working directory and \<open>path.join\<close> give is the same
  after as before; and no object that existed before is changed, the store only grows.
  In particular the array \<open>baseTasks\<close> holds the same descriptors after as before.
\<close>

theorem tasks_only_read:
  assumes "baseTasks_literal s0 = (b, st)" and "tasks_obj b (w, st) = (r, (w', st'))"
  shows "readFileSync w' = readFileSync w \<and> cwd w' = cwd w \<and> join w' = join w \<and>
         (\<exists>n \<le> length baseTasks.
            calls w' = calls w @ concat (map (callback_calls w) (take n baseTasks))) \<and>
         w' = snd (tasks w) \<and>
         take (length st) st' = st \<and>
         array_at st b (descriptor_at st) = Some baseTasks \<and>
         array_at st' b (descriptor_at st') = Some baseTasks"
proof -
  have before: "array_at st b (descriptor_at st) = Some baseTasks"
    using assms(1) by (rule baseTasks_literal_at)
  from tasks_obj_sim [OF before, of w] assms(2)
  obtain ext where w': "w' = snd (tasks w)" and st': "st' = st @ ext"
    by auto
  from tasks_world [of w] obtain n where n: "n \<le> length baseTasks"
    and world: "snd (tasks w) = logged (concat (map (callback_calls w) (take n baseTasks))) w"
    by blast
  have host: "readFileSync w' = readFileSync w \<and> cwd w' = cwd w \<and> join w' = join w"
    by (simp add: w' world)
  have log: "\<exists>n \<le> length baseTasks.
      calls w' = calls w @ concat (map (callback_calls w) (take n baseTasks))"
    using n by (auto simp: w' world)
  have frame: "take (length st) st' = st"
    by (simp add: st')
  have after: "array_at st' b (descriptor_at st') = Some baseTasks"
    unfolding st' using before by (rule array_at_descriptors_append)
  from host log w' frame before after show ?thesis by blast
qed

theorem tasks_only_read_witness:
  "\<exists>st w' st'.
     baseTasks_literal [] = (4, st) \<and> length st = 5 \<and>
     tasks_obj 4 (example_world, st) = (Inr 7, (w', st')) \<and>
     readFileSync w' = example_files \<and>
     take 5 st' = st \<and>
     array_at st' 4 (descriptor_at st') = Some baseTasks"
proof -
  from example_store obtain st w' st' where l: "baseTasks_literal [] = (4, st)"
    and len: "length st = 5"
    and t: "tasks_obj 4 (example_world, st) = (Inr 7, (w', st'))"
    by blast
  from tasks_only_read [OF l t]
  have "readFileSync w' = readFileSync example_world" and "take (length st) st' = st"
    and "array_at st' 4 (descriptor_at st') = Some baseTasks"
    by blast+
  moreover have "readFileSync example_world = example_files"
    by (simp add: example_world_def)
  ultimately show ?thesis using l len t by auto
qed

end
